theory Spec2Isabelle
  imports Complex_Main "HOL-Library.Word" "HOL-Library.Sublist"
begin

section \<open>JavaScript strings\<close>

text \<open>
  A JavaScript string is a sequence of UTF-16 code units. \<open>js\<close> embeds an ASCII literal.
\<close>

type_synonym jsstring = "16 word list"

definition js :: "string \<Rightarrow> jsstring" where
  "js s = map of_char s"

text \<open>
  \<open>String.prototype.trim\<close> removes the code units of ECMAScript's WhiteSpace and
  LineTerminator productions from both ends; all of them lie in the basic plane.
\<close>

definition is_ws :: "16 word \<Rightarrow> bool" where
  "is_ws c \<longleftrightarrow>
     c \<in> set [0x0009, 0x000A, 0x000B, 0x000C, 0x000D, 0x0020, 0x00A0, 0x1680,
              0x2028, 0x2029, 0x202F, 0x205F, 0x3000, 0xFEFF]
     \<or> (0x2000 \<le> c \<and> c \<le> 0x200A)"

definition trim :: "jsstring \<Rightarrow> jsstring" where
  "trim s = rev (dropWhile is_ws (rev (dropWhile is_ws s)))"

text \<open>A string is truthy when it is not empty; \<open>null\<close> and \<open>undefined\<close> are falsy.\<close>

definition truthy :: "jsstring option \<Rightarrow> bool" where
  "truthy v = (case v of None \<Rightarrow> False | Some s \<Rightarrow> s \<noteq> [])"

text \<open>\<open>s.split(',')\<close>: the segments between commas; the empty string gives one empty segment.\<close>

fun split_comma :: "jsstring \<Rightarrow> jsstring list" where
  "split_comma [] = [Nil]"
| "split_comma (c # cs) =
     (if c = 0x2C then [] # split_comma cs
      else (case split_comma cs of
              seg # segs \<Rightarrow> (c # seg) # segs
            | [] \<Rightarrow> [c # Nil]))"

text \<open>\<open>xs[i]\<close> on an array: \<open>undefined\<close> out of range.\<close>

definition at_index :: "'a list \<Rightarrow> nat \<Rightarrow> 'a option" where
  "at_index xs i = (if i < length xs then Some (xs ! i) else None)"

text \<open>An awaited backend promise either fulfils with a value or rejects.\<close>

datatype 'a settled = Fulfilled 'a | Rejected

section \<open>Data of the component\<close>

datatype asset_kind = Image | Video | Audio

record asset =
  asset_id :: jsstring
  asset_type :: asset_kind
  url :: "jsstring option"
  prompt :: "jsstring option"
  cost :: real
  model :: jsstring
  createdAt :: int

datatype attachment_kind = ImageAtt | AudioAtt

text \<open>
  An entry of the \<open>attachments\<close> state. \<open>att_data\<close> is \<open>split(',')[1]\<close> of the reader's
  result, which is \<open>undefined\<close> when the result has no comma.
\<close>

record attachment =
  att_data :: "jsstring option"
  mimeType :: jsstring
  att_type :: attachment_kind

record cinema_data =
  videos :: "asset list"
  audio :: "asset option"

text \<open>The result objects of the server actions \<open>getAssets\<close> and \<open>getCinemaData\<close>.\<close>

record assets_result =
  success :: bool
  result_assets :: "asset list option"

record cinema_result =
  cinema_success :: bool
  result_data :: "cinema_data option"

text \<open>
  The effects of sending, attaching and refreshing, in program order. \<open>HookEv\<close> wraps
  what the chat hook does inside \<open>sendUserMessage\<close>.
\<close>

datatype 'e event =
    SetInputValue jsstring
  | SetAttachments "attachment list"
  | CallSendUserMessage jsstring "attachment list"
  | HookEv 'e
  | SetTimeoutLoadAssets
  | TimerFired
  | SetAssets "asset list"

text \<open>
  The state of \<open>LucyChatInterface\<close>: its five \<open>useState\<close> cells, the state held by
  \<open>useLucyChat\<close>, the pending \<open>setTimeout(loadAssets, 2000)\<close> callbacks and the trace of
  effects so far.
\<close>

record ('h, 'e) world =
  inputValue :: jsstring
  attachments :: "attachment list"
  assets :: "asset list"
  showCinema :: bool
  cinemaData :: "cinema_data option"
  chat :: 'h
  timers :: nat
  trace :: "'e event list"

section \<open>Asset gallery\<close>

text \<open>
  \<open>loadAssets\<close>, from the point where \<open>getAssets(50)\<close> settles. A rejected promise ends
  the function before \<open>setAssets\<close>.
\<close>

definition loadAssets :: "assets_result settled \<Rightarrow> ('h, 'e) world \<Rightarrow> ('h, 'e) world" where
  "loadAssets r w =
     (case r of
        Rejected \<Rightarrow> w
      | Fulfilled result \<Rightarrow>
          (case result_assets result of
             Some fetched \<Rightarrow>
               if success result
               then w\<lparr>assets := fetched, trace := trace w @ [SetAssets fetched]\<rparr>
               else w
           | None \<Rightarrow> w))"

text \<open>A pending timer fires and runs \<open>loadAssets\<close>.\<close>

definition timer_fires :: "assets_result settled \<Rightarrow> ('h, 'e) world \<Rightarrow> ('h, 'e) world" where
  "timer_fires r w =
     (if timers w = 0 then w
      else loadAssets r (w\<lparr>timers := timers w - 1, trace := trace w @ [TimerFired]\<rparr>))"

section \<open>Cinema mode\<close>

definition handleCinemaMode :: "cinema_result settled \<Rightarrow> ('h, 'e) world \<Rightarrow> ('h, 'e) world" where
  "handleCinemaMode r w =
     (case r of
        Rejected \<Rightarrow> w
      | Fulfilled result \<Rightarrow>
          (case result_data result of
             Some d \<Rightarrow>
               if cinema_success result
               then w\<lparr>cinemaData := Some d, showCinema := True\<rparr>
               else w
           | None \<Rightarrow> w))"

definition handleVideoEnd :: "asset list \<Rightarrow> nat \<Rightarrow> nat" where
  "handleVideoEnd vs currentIndex =
     (if int currentIndex < int (length vs) - 1 then currentIndex + 1 else 0)"

text \<open>The indices after each of \<open>k\<close> consecutive ended events, starting at index \<open>i\<close>.\<close>

fun video_ends :: "asset list \<Rightarrow> nat \<Rightarrow> nat \<Rightarrow> nat list" where
  "video_ends vs 0 i = []"
| "video_ends vs (Suc k) i = handleVideoEnd vs i # video_ends vs k (handleVideoEnd vs i)"

text \<open>What \<open>CinemaMode\<close> puts on screen.\<close>

record cinema_view =
  progress :: "nat \<times> nat"
  video_src :: jsstring
  audio_src :: "jsstring option"
  caption :: "jsstring option"

datatype render_error = TypeError

text \<open>
  The render of \<open>CinemaMode\<close>: \<open>null\<close> for an empty playlist; \<open>videos[currentIndex]\<close> out
  of range is \<open>undefined\<close>, and reading its \<open>url\<close> throws.
\<close>

definition CinemaMode :: "asset list \<Rightarrow> asset option \<Rightarrow> nat \<Rightarrow> render_error + cinema_view option" where
  "CinemaMode vs au currentIndex =
     (if length vs = 0 then Inr None
      else (case at_index vs currentIndex of
              None \<Rightarrow> Inl TypeError
            | Some currentVideo \<Rightarrow>
                Inr (Some \<lparr>progress = (currentIndex + 1, length vs),
                          video_src = (case url currentVideo of None \<Rightarrow> [] | Some u \<Rightarrow> u),
                          audio_src = (case au of
                                         None \<Rightarrow> None
                                       | Some a \<Rightarrow> if truthy (url a) then url a else None),
                          caption = prompt currentVideo\<rparr>)))"

text \<open>The modal of the parent: \<open>showCinema && cinemaData && <CinemaMode ... />\<close>.\<close>

definition cinema_modal :: "('h, 'e) world \<Rightarrow> nat \<Rightarrow> render_error + cinema_view option" where
  "cinema_modal w currentIndex =
     (if showCinema w
      then (case cinemaData w of
              None \<Rightarrow> Inr None
            | Some d \<Rightarrow> CinemaMode (videos d) (audio d) currentIndex)
      else Inr None)"

datatype playback = PlayVideo nat | PlayAudio

text \<open>
  The mount effect: \<open>videoRef.current\<close> and \<open>audioRef.current\<close> are set exactly when the
  render produced the two elements.
\<close>

definition mount_effect :: "asset list \<Rightarrow> asset option \<Rightarrow> nat \<Rightarrow> playback list" where
  "mount_effect vs au currentIndex =
     (case CinemaMode vs au currentIndex of
        Inr (Some v) \<Rightarrow>
          PlayVideo currentIndex # (if audio_src v \<noteq> None then [PlayAudio] else [])
      | _ \<Rightarrow> [])"

text \<open>
  The sequencer's state read off the screen: it is playing the video at \<open>currentIndex\<close>
  exactly when the modal shows a video element.
\<close>

datatype sequencer = Idle | Playing nat

definition sequencer_state :: "('h, 'e) world \<Rightarrow> nat \<Rightarrow> sequencer" where
  "sequencer_state w currentIndex =
     (case cinema_modal w currentIndex of
        Inr (Some v) \<Rightarrow> Playing currentIndex
      | _ \<Rightarrow> Idle)"

definition clip :: "string \<Rightarrow> asset" where
  "clip name = \<lparr>asset_id = js name, asset_type = Video, url = Some (js name),
                prompt = None, cost = 0, model = js ''veo'', createdAt = 0\<rparr>"

section \<open>File attachments\<close>

text \<open>Of a selected \<open>File\<close> the handler reads only its MIME type.\<close>

record js_file =
  file_type :: jsstring

text \<open>
  A \<open>FileReader\<close> either fires \<open>load\<close> with its result, or fires \<open>error\<close> when the
  bytes cannot be read. The handler registers \<open>onload\<close> only.
\<close>

datatype read_error = DecodeError

definition encode_attachment :: "js_file \<Rightarrow> jsstring \<Rightarrow> attachment" where
  "encode_attachment f result =
     \<lparr>att_data = at_index (split_comma result) 1,
      mimeType = file_type f,
      att_type = (if prefix (js ''image/'') (file_type f) then ImageAtt else AudioAtt)\<rparr>"

text \<open>The body of \<open>reader.onload\<close>: \<open>setAttachments(prev => [...prev, record])\<close>.\<close>

definition reader_onload :: "js_file \<Rightarrow> jsstring \<Rightarrow> ('h, 'e) world \<Rightarrow> ('h, 'e) world" where
  "reader_onload f result w =
     (let next = attachments w @ [encode_attachment f result]
      in w\<lparr>attachments := next, trace := trace w @ [SetAttachments next]\<rparr>)"

definition reader_settles ::
    "js_file \<Rightarrow> read_error + jsstring \<Rightarrow> ('h, 'e) world \<Rightarrow> ('h, 'e) world" where
  "reader_settles f outcome w =
     (case outcome of
        Inr result \<Rightarrow> reader_onload f result w
      | Inl e \<Rightarrow> w)"

text \<open>
  \<open>handleFileSelect\<close> starts one reader per selected file, in selection order, and
  returns; \<open>e.target.files\<close> may be \<open>null\<close>.
\<close>

definition handleFileSelect :: "js_file list option \<Rightarrow> js_file list" where
  "handleFileSelect files = (case files of None \<Rightarrow> [] | Some fs \<Rightarrow> fs)"

text \<open>
  The readers settle later, one event each, in the order the environment completes
  them: \<open>(i, outcome)\<close> settles the reader of the \<open>i\<close>-th selected file.
\<close>

fun readers_settle ::
    "js_file list \<Rightarrow> (nat \<times> (read_error + jsstring)) list \<Rightarrow> ('h, 'e) world \<Rightarrow> ('h, 'e) world" where
  "readers_settle readers [] w = w"
| "readers_settle readers ((i, outcome) # rest) w =
     (case at_index readers i of
        None \<Rightarrow> readers_settle readers rest w
      | Some f \<Rightarrow> readers_settle readers rest (reader_settles f outcome w))"

text \<open>The records of the completions that loaded, in completion order.\<close>

fun completed_records ::
    "js_file list \<Rightarrow> (nat \<times> (read_error + jsstring)) list \<Rightarrow> attachment list" where
  "completed_records readers [] = []"
| "completed_records readers ((i, outcome) # rest) =
     (case (at_index readers i, outcome) of
        (Some f, Inr result) \<Rightarrow> encode_attachment f result # completed_records readers rest
      | _ \<Rightarrow> completed_records readers rest)"

text \<open>\<open>removeAttachment\<close> keeps the entries whose position is not \<open>index\<close>.\<close>

definition removeAttachment :: "nat \<Rightarrow> ('h, 'e) world \<Rightarrow> ('h, 'e) world" where
  "removeAttachment index w =
     (let next = map snd (filter (\<lambda>(i, a). i \<noteq> index) (enumerate 0 (attachments w)))
      in w\<lparr>attachments := next, trace := trace w @ [SetAttachments next]\<rparr>)"

section \<open>Sending\<close>

text \<open>
  \<open>handleSend\<close> calls \<open>sendUserMessage\<close> of the chat hook and awaits it. The hook is a
  parameter here: \<open>send_begin\<close> is what \<open>sendUserMessage\<close> does until it first awaits
  (it returns what the pending call remembers), \<open>send_settle\<close> is what it does when
  the backend has answered, and whether its promise fulfils.

  \<open>handleSend_begin\<close> is lines 75 to 83 up to the \<open>await\<close>; \<open>None\<close> is the early
  \<open>return\<close> of the guard.
\<close>

definition handleSend_begin ::
    "(jsstring \<Rightarrow> attachment list \<Rightarrow> 'h \<Rightarrow> 't \<times> 'h \<times> 'e list)
      \<Rightarrow> ('h, 'e) world \<Rightarrow> 't option \<times> ('h, 'e) world" where
  "handleSend_begin send_begin w =
     (if trim (inputValue w) = [] \<and> length (attachments w) = 0 then (None, w)
      else
        (let text = inputValue w;
             atts = attachments w;
             w1 = w\<lparr>inputValue := [], trace := trace w @ [SetInputValue []]\<rparr>;
             w2 = w1\<lparr>attachments := [], trace := trace w1 @ [SetAttachments []]\<rparr>
         in (case send_begin text atts (chat w2) of
               (t, h, evs) \<Rightarrow>
                 (Some t,
                  w2\<lparr>chat := h,
                     trace := trace w2 @ CallSendUserMessage text atts # map HookEv evs\<rparr>))))"

text \<open>
  \<open>handleSend_resume\<close> is the rest of \<open>handleSend\<close> once the awaited promise settles:
  the timer is set when it fulfils; when it rejects the \<open>await\<close> throws and line 86 is
  not reached.
\<close>

definition handleSend_resume ::
    "('t \<Rightarrow> 'r \<Rightarrow> 'h \<Rightarrow> bool \<times> 'h \<times> 'e list)
      \<Rightarrow> 't \<Rightarrow> 'r \<Rightarrow> ('h, 'e) world \<Rightarrow> ('h, 'e) world" where
  "handleSend_resume send_settle t r w =
     (case send_settle t r (chat w) of
        (fulfilled, h, evs) \<Rightarrow>
          (let w1 = w\<lparr>chat := h, trace := trace w @ map HookEv evs\<rparr>
           in if fulfilled
              then w1\<lparr>timers := timers w1 + 1, trace := trace w1 @ [SetTimeoutLoadAssets]\<rparr>
              else w1))"

section \<open>The chat hook\<close>

text \<open>
  A message as the component hands it to \<open>ChatMessage\<close>: \<open>id\<close>, \<open>role\<close>, \<open>text\<close>,
  \<open>attachments\<close>, \<open>toolCalls\<close>, \<open>isLoading\<close>, \<open>isError\<close>. Tool calls are passed through
  unread.
\<close>

datatype role = User | Model

type_synonym tool_call = jsstring

record message =
  msg_id :: nat
  msg_role :: role
  msg_text :: jsstring
  msg_attachments :: "attachment list option"
  toolCalls :: "tool_call list option"
  isLoading :: bool
  isError :: bool

text \<open>
  Modelled from the spec: the hook \<open>useLucyChat\<close> (\<open>sendUserMessage\<close>, \<open>startNewChat\<close>
  and the message timeline) is not among the sources. What follows is the SessionStore
  and the MessageDispatcher as the specification words them. Message and session
  identities are drawn from counters; \<open>hook_error\<close> is the \<open>error\<close> the hook exposes.
\<close>

record session_store =
  sessionId :: nat
  messages :: "message list"
  nextId :: nat
  hook_error :: "jsstring option"

text \<open>
  Modelled from the spec: the \<open>NotFoundError\<close> of \<open>updatePlaceholder\<close>, which is part of
  the missing hook.
\<close>

datatype store_error = NotFoundError

text \<open>
  Modelled from the spec: what \<open>updatePlaceholder\<close> of the missing hook sets on the
  loading message (text, tool calls, attachments, \<open>isError\<close>).
\<close>

record patch =
  patch_text :: jsstring
  patch_toolCalls :: "tool_call list option"
  patch_attachments :: "attachment list option"
  patch_isError :: bool

text \<open>
  Modelled from the spec: \<open>appendMessage\<close> of the missing hook inserts at the end and
  assigns an id when none is supplied.
\<close>

definition appendMessage ::
    "nat option \<Rightarrow> message \<Rightarrow> session_store \<Rightarrow> nat \<times> session_store" where
  "appendMessage supplied m st =
     (case supplied of
        Some i \<Rightarrow> (i, st\<lparr>messages := messages st @ [m\<lparr>msg_id := i\<rparr>]\<rparr>)
      | None \<Rightarrow>
          (nextId st,
           st\<lparr>messages := messages st @ [m\<lparr>msg_id := nextId st\<rparr>],
              nextId := nextId st + 1\<rparr>))"

text \<open>
  Modelled from the spec: the placeholder of the missing hook is the loading message
  identified by an id.
\<close>

definition is_placeholder :: "nat \<Rightarrow> message \<Rightarrow> bool" where
  "is_placeholder i m \<longleftrightarrow> msg_id m = i \<and> isLoading m"

text \<open>
  Modelled from the spec: the transition of the missing hook's placeholder to its final
  state sets text, tool calls, attachments and \<open>isError\<close>, and clears \<open>isLoading\<close>.
\<close>

definition apply_patch :: "patch \<Rightarrow> message \<Rightarrow> message" where
  "apply_patch p m =
     m\<lparr>msg_text := patch_text p, toolCalls := patch_toolCalls p,
       msg_attachments := patch_attachments p, isError := patch_isError p,
       isLoading := False\<rparr>"

text \<open>
  Modelled from the spec: \<open>updatePlaceholder\<close> of the missing hook moves the loading
  message with the given id to its final state, and fails with \<open>NotFoundError\<close> when
  there is none.
\<close>

definition updatePlaceholder ::
    "nat \<Rightarrow> patch \<Rightarrow> session_store \<Rightarrow> store_error + session_store" where
  "updatePlaceholder i p st =
     (if list_ex (is_placeholder i) (messages st)
      then Inr (st\<lparr>messages :=
                    map (\<lambda>m. if is_placeholder i m then apply_patch p m else m) (messages st)\<rparr>)
      else Inl NotFoundError)"


text \<open>
  Modelled from the spec: the steps of the missing \<open>sendUserMessage\<close>, as events of the
  trace.
\<close>

datatype hook_event =
    AppendedUser nat
  | AppendedPlaceholder nat
  | BackendCall jsstring "attachment list" nat
  | ResolvedPlaceholder nat bool
  | PlaceholderMissing

text \<open>
  Modelled from the spec: what the backend call of the missing \<open>sendUserMessage\<close> returns
  on success, the text, tool calls and attachments of the model's message.
\<close>

record reply =
  reply_text :: jsstring
  reply_toolCalls :: "tool_call list option"
  reply_attachments :: "attachment list option"

text \<open>
  Modelled from the spec: what a pending call of the missing \<open>sendUserMessage\<close> holds,
  the session id it gave the backend at send time and the id of its placeholder.
\<close>

record ticket =
  sent_session :: nat
  placeholder :: nat

text \<open>
  Modelled from the spec: the user-facing error text of the missing hook; the
  specification only says that it is generic and suggests a retry.
\<close>

definition SEND_FAILURE_TEXT :: jsstring where
  "SEND_FAILURE_TEXT = js ''Something went wrong. Please try again.''"

text \<open>
  Modelled from the spec: the user message and the loading placeholder that the missing
  \<open>sendUserMessage\<close> appends; their ids are assigned by \<open>appendMessage\<close>.
\<close>

definition user_message :: "jsstring \<Rightarrow> attachment list \<Rightarrow> message" where
  "user_message text atts =
     \<lparr>msg_id = 0, msg_role = User, msg_text = text, msg_attachments = Some atts,
      toolCalls = None, isLoading = False, isError = False\<rparr>"

text \<open>
  Modelled from the spec: the loading placeholder of the missing \<open>sendUserMessage\<close>, an
  empty model message with \<open>isLoading\<close> set.
\<close>

definition loading_message :: message where
  "loading_message =
     \<lparr>msg_id = 0, msg_role = Model, msg_text = [], msg_attachments = None,
      toolCalls = None, isLoading = True, isError = False\<rparr>"

text \<open>
  Modelled from the spec: the missing \<open>sendUserMessage\<close> up to its backend call, steps 2
  and 3 of \<open>send\<close>. The user message is appended, then the loading placeholder, then
  the backend is called with the text, the attachments and the session id.
\<close>

definition sendUserMessage_begin ::
    "jsstring \<Rightarrow> attachment list \<Rightarrow> session_store
      \<Rightarrow> ticket \<times> session_store \<times> hook_event list" where
  "sendUserMessage_begin text atts st =
     (case appendMessage None (user_message text atts) st of
        (uid, st1) \<Rightarrow>
          (case appendMessage None loading_message st1 of
             (pid, st2) \<Rightarrow>
               (\<lparr>sent_session = sessionId st2, placeholder = pid\<rparr>,
                st2,
                [AppendedUser uid, AppendedPlaceholder pid,
                 BackendCall text atts (sessionId st2)])))"

text \<open>
  Modelled from the spec: how the missing \<open>sendUserMessage\<close> resolves its placeholder, with
  the returned content on success, with \<open>isError\<close> and the failure text on failure.
\<close>

definition resolution :: "reply settled \<Rightarrow> patch" where
  "resolution r =
     (case r of
        Fulfilled rep \<Rightarrow>
          \<lparr>patch_text = reply_text rep, patch_toolCalls = reply_toolCalls rep,
           patch_attachments = reply_attachments rep, patch_isError = False\<rparr>
      | Rejected \<Rightarrow>
          \<lparr>patch_text = SEND_FAILURE_TEXT, patch_toolCalls = None,
           patch_attachments = None, patch_isError = True\<rparr>)"

text \<open>
  Modelled from the spec: the missing \<open>sendUserMessage\<close> once the backend has answered,
  steps 4 and 5 of \<open>send\<close>. The placeholder is resolved with the reply, or with
  \<open>isError\<close> and the failure text; a missing placeholder is surfaced through
  \<open>hook_error\<close>. Failures are caught here, so the promise always fulfils. The session id
  of the pending call is not compared with the current one: the specification records
  (sections 5 and 9) that the reference behaviour has no stale-response guard, and
  \<open>handleSend\<close> captures no session id either.
\<close>

definition sendUserMessage_settle ::
    "ticket \<Rightarrow> reply settled \<Rightarrow> session_store \<Rightarrow> bool \<times> session_store \<times> hook_event list" where
  "sendUserMessage_settle t r st =
     (case updatePlaceholder (placeholder t) (resolution r) st of
        Inr st' \<Rightarrow>
          (True, st', [ResolvedPlaceholder (placeholder t) (patch_isError (resolution r))])
      | Inl e \<Rightarrow>
          (True, st\<lparr>hook_error := Some SEND_FAILURE_TEXT\<rparr>, [PlaceholderMissing]))"

text \<open>The component with this hook.\<close>

type_synonym lucy = "(session_store, hook_event) world"


text \<open>
  One send, from typing to settling: the user fills the input and the pending
  attachments, \<open>handleSend\<close> runs, the backend answers, \<open>handleSend\<close> resumes. Nothing
  else happens in between.
\<close>

definition send_cycle :: "lucy \<Rightarrow> jsstring \<times> attachment list \<times> reply settled \<Rightarrow> lucy" where
  "send_cycle w s =
     (case s of
        (text, atts, r) \<Rightarrow>
          (case handleSend_begin sendUserMessage_begin (w\<lparr>inputValue := text, attachments := atts\<rparr>) of
             (None, w1) \<Rightarrow> w1
           | (Some t, w1) \<Rightarrow> handleSend_resume sendUserMessage_settle t r w1))"

definition run_sends :: "lucy \<Rightarrow> (jsstring \<times> attachment list \<times> reply settled) list \<Rightarrow> lucy" where
  "run_sends w ss = foldl send_cycle w ss"

text \<open>What the timeline shows of a message.\<close>

definition shown :: "message \<Rightarrow> role \<times> jsstring \<times> bool \<times> bool" where
  "shown m = (msg_role m, msg_text m, isLoading m, isError m)"

text \<open>A send that passes the guard of \<open>handleSend\<close>.\<close>

definition passes_guard :: "jsstring \<times> attachment list \<times> reply settled \<Rightarrow> bool" where
  "passes_guard s = (case s of (text, atts, r) \<Rightarrow> \<not> (trim text = [] \<and> atts = []))"

text \<open>
  The pair of messages the specification expects from one settled send: the user's
  turn, then the model's turn with the reply or the failure text.
\<close>

definition settled_pair ::
    "jsstring \<times> attachment list \<times> reply settled \<Rightarrow> (role \<times> jsstring \<times> bool \<times> bool) list" where
  "settled_pair s =
     (case s of
        (text, atts, r) \<Rightarrow>
          [(User, text, False, False),
           (case r of
              Fulfilled rep \<Rightarrow> (Model, reply_text rep, False, False)
            | Rejected \<Rightarrow> (Model, SEND_FAILURE_TEXT, False, True))])"

text \<open>The component after mounting on hook state \<open>h\<close>: the initial \<open>useState\<close> values.\<close>

definition idle_world :: "'h \<Rightarrow> ('h, 'e) world" where
  "idle_world h =
     \<lparr>inputValue = [], attachments = [], assets = [], showCinema = False,
      cinemaData = None, chat = h, timers = 0, trace = []\<rparr>"

definition initial :: lucy where
  "initial = idle_world \<lparr>sessionId = 0, messages = [], nextId = 0, hook_error = None\<rparr>"





text \<open>A hook that does nothing, for running the component on its own.\<close>

definition inert_begin :: "jsstring \<Rightarrow> attachment list \<Rightarrow> unit \<Rightarrow> unit \<times> unit \<times> unit list" where
  "inert_begin tx atts h = ((), h, [])"

definition inert_settle :: "unit \<Rightarrow> bool \<Rightarrow> unit \<Rightarrow> bool \<times> unit \<times> unit list" where
  "inert_settle t r h = (r, h, [])"

definition png :: js_file where
  "png = \<lparr>file_type = js ''image/png''\<rparr>"

definition mp3 :: js_file where
  "mp3 = \<lparr>file_type = js ''audio/mpeg''\<rparr>"

section \<open>Cinema sequencer: wrap-around\<close>

lemma handleVideoEnd_mod:
  "i < length vs \<Longrightarrow> handleVideoEnd vs i = (i + 1) mod length vs"
  by (auto simp: handleVideoEnd_def mod_Suc)

lemma length_video_ends: "length (video_ends vs k i) = k"
  by (induction k arbitrary: i) simp_all

lemma nth_video_ends:
  "i < length vs \<Longrightarrow> m < k \<Longrightarrow> video_ends vs k i ! m = (i + Suc m) mod length vs"
proof (induction k arbitrary: i m)
  case 0
  then show ?case by simp
next
  case (Suc k)
  have step: "handleVideoEnd vs i = Suc i mod length vs"
    using Suc.prems(1) by (simp add: handleVideoEnd_mod)
  show ?case
  proof (cases m)
    case 0
    then show ?thesis using step by simp
  next
    case (Suc m')
    have lt: "Suc i mod length vs < length vs"
      using Suc.prems(1) by (intro mod_less_divisor) auto
    have "video_ends vs k (Suc i mod length vs) ! m' = (Suc i mod length vs + Suc m') mod length vs"
      using Suc.IH [OF lt, of m'] Suc.prems(2) Suc by simp
    also have "\<dots> = (Suc i + Suc m') mod length vs"
      by (rule mod_add_left_eq)
    finally show ?thesis
      using Suc step by simp
  qed
qed

text \<open>
  C3. On a non-empty playlist a video-ended event moves every index of the playlist to
  its successor modulo the playlist length, and from index 0 the indices after
  \<open>length videos\<close> consecutive ended events are \<open>1, 2, ..., length videos - 1, 0\<close>: the
  index is back at 0 after exactly that many events.
\<close>

theorem handleVideoEnd_wraps:
  assumes "vs \<noteq> []"
  shows "(\<forall>i < length vs. handleVideoEnd vs i = (i + 1) mod length vs)
    \<and> video_ends vs (length vs) 0 = [1 ..< length vs] @ [0]"
proof
  show "\<forall>i < length vs. handleVideoEnd vs i = (i + 1) mod length vs"
    by (simp add: handleVideoEnd_mod)
next
  have pos: "0 < length vs" using assms by simp
  show "video_ends vs (length vs) 0 = [1 ..< length vs] @ [0]"
  proof (rule nth_equalityI)
    show "length (video_ends vs (length vs) 0) = length ([1 ..< length vs] @ [0])"
      using pos by (simp add: length_video_ends)
  next
    fix m assume "m < length (video_ends vs (length vs) 0)"
    then have m: "m < length vs" by (simp add: length_video_ends)
    have lhs: "video_ends vs (length vs) 0 ! m = Suc m mod length vs"
      using nth_video_ends [OF pos m] by simp
    show "video_ends vs (length vs) 0 ! m = ([1 ..< length vs] @ [0]) ! m"
    proof (cases "Suc m < length vs")
      case True
      then have "m < length [1 ..< length vs]" by simp
      then show ?thesis using lhs True by (simp add: nth_append)
    next
      case False
      then have eq: "Suc m = length vs" using m by simp
      then have "\<not> m < length [1 ..< length vs]" by simp
      then show ?thesis using lhs eq by (simp add: nth_append)
    qed
  qed
qed

theorem handleVideoEnd_wraps_witness:
  "[clip ''A'', clip ''B'', clip ''C''] \<noteq> []
    \<and> handleVideoEnd [clip ''A'', clip ''B'', clip ''C''] 2 = 0
    \<and> video_ends [clip ''A'', clip ''B'', clip ''C''] 3 0 = [1, 2, 0]"
proof -
  have ne: "[clip ''A'', clip ''B'', clip ''C''] \<noteq> []" by simp
  have "handleVideoEnd [clip ''A'', clip ''B'', clip ''C''] 2 = 0"
    using handleVideoEnd_wraps [OF ne, THEN conjunct1, rule_format, of 2] by simp
  moreover have "video_ends [clip ''A'', clip ''B'', clip ''C''] 3 0 = [1, 2, 0]"
    using handleVideoEnd_wraps [OF ne, THEN conjunct2] by (simp add: upt_rec numeral_3_eq_3 handleVideoEnd_def)
  ultimately show ?thesis by simp
qed

section \<open>Cinema sequencer: the empty playlist\<close>

text \<open>
  C4. When cinema mode is entered with an empty video list (\<open>getCinemaData\<close> succeeds
  with no videos), \<open>CinemaMode\<close> renders nothing and starts no playback, whatever the
  index and the audio track: the modal shows nothing, the sequencer is idle and not
  playing, and the guard is a \<open>null\<close> render, not a thrown error.
\<close>

theorem empty_playlist_stays_idle:
  assumes "videos d = []" and "cinema_success res" and "result_data res = Some d"
  shows "CinemaMode (videos d) (audio d) i = Inr None
    \<and> mount_effect (videos d) (audio d) i = []
    \<and> cinema_modal (handleCinemaMode (Fulfilled res) w) i = Inr None
    \<and> sequencer_state (handleCinemaMode (Fulfilled res) w) i = Idle"
  using assms
  by (simp add: CinemaMode_def mount_effect_def cinema_modal_def sequencer_state_def
      handleCinemaMode_def)

theorem empty_playlist_stays_idle_witness:
  "videos \<lparr>videos = [], audio = None\<rparr> = []
    \<and> cinema_success \<lparr>cinema_success = True, result_data = Some \<lparr>videos = [], audio = None\<rparr>\<rparr>
    \<and> cinema_modal
          (handleCinemaMode
            (Fulfilled \<lparr>cinema_success = True, result_data = Some \<lparr>videos = [], audio = None\<rparr>\<rparr>)
            (idle_world () :: (unit, unit) world)) 0 = Inr None
    \<and> sequencer_state
          (handleCinemaMode
            (Fulfilled \<lparr>cinema_success = True, result_data = Some \<lparr>videos = [], audio = None\<rparr>\<rparr>)
            (idle_world () :: (unit, unit) world)) 0 = Idle"
  using empty_playlist_stays_idle
    [of "\<lparr>videos = [], audio = None\<rparr>"
        "\<lparr>cinema_success = True, result_data = Some \<lparr>videos = [], audio = None\<rparr>\<rparr>"
        0 "idle_world () :: (unit, unit) world"]
  by simp

section \<open>Asset gallery: refresh\<close>

text \<open>
  C6. A refresh that succeeds with a fetched list replaces the cached assets by that
  list; a refresh whose result has \<open>success = false\<close>, or whose call rejects, leaves the
  whole state, and so the cached assets, as it was.
\<close>

theorem loadAssets_replaces_or_retains:
  "(success res \<and> result_assets res = Some fetched \<longrightarrow>
      assets (loadAssets (Fulfilled res) w) = fetched)
    \<and> (\<not> success res \<longrightarrow> loadAssets (Fulfilled res) w = w)
    \<and> loadAssets Rejected w = w"
  by (simp add: loadAssets_def split: option.splits)

theorem loadAssets_replaces_or_retains_witness:
  "assets (loadAssets (Fulfilled \<lparr>success = True, result_assets = Some [clip ''B'']\<rparr>)
            ((idle_world () :: (unit, unit) world)\<lparr>assets := [clip ''A'']\<rparr>)) = [clip ''B'']
    \<and> assets (loadAssets (Fulfilled \<lparr>success = False, result_assets = None\<rparr>)
            ((idle_world () :: (unit, unit) world)\<lparr>assets := [clip ''A'']\<rparr>)) = [clip ''A'']"
  using loadAssets_replaces_or_retains
    [of "\<lparr>success = True, result_assets = Some [clip ''B'']\<rparr>" "[clip ''B'']"
        "(idle_world () :: (unit, unit) world)\<lparr>assets := [clip ''A'']\<rparr>"]
    loadAssets_replaces_or_retains
    [of "\<lparr>success = False, result_assets = None\<rparr>" "[]"
        "(idle_world () :: (unit, unit) world)\<lparr>assets := [clip ''A'']\<rparr>"]
  by simp

section \<open>File attachments: what the readers append\<close>

lemma attachments_readers_settle:
  "attachments (readers_settle fs sched w) = attachments w @ completed_records fs sched"
proof (induction sched arbitrary: w)
  case Nil
  then show ?case by simp
next
  case (Cons c sched)
  obtain i outcome where c: "c = (i, outcome)" by (cases c)
  show ?case
    by (cases "at_index fs i"; cases outcome)
       (simp_all add: c Cons.IH reader_settles_def reader_onload_def Let_def)
qed

lemma completed_records_append:
  "completed_records fs (pre @ post) = completed_records fs pre @ completed_records fs post"
proof (induction pre)
  case Nil
  then show ?case by simp
next
  case (Cons c pre)
  obtain i outcome where c: "c = (i, outcome)" by (cases c)
  show ?case
    by (cases "at_index fs i"; cases outcome) (simp_all add: c Cons.IH)
qed

lemma completed_records_loaded:
  "\<forall>i \<in> set order. i < length fs \<Longrightarrow>
     completed_records fs (map (\<lambda>i. (i, Inr (res i))) order)
       = map (\<lambda>i. encode_attachment (fs ! i) (res i)) order"
  by (induction order) (simp_all add: at_index_def)

text \<open>
  C8. A reader whose file cannot be read ends in \<open>DecodeError\<close> and changes nothing: no
  entry is appended for it. Within any batch of completions, the pending attachments
  end as if the failed reader had never been started.
\<close>

theorem unreadable_file_adds_nothing:
  "reader_settles f (Inl DecodeError) w = w
    \<and> attachments (readers_settle fs (pre @ (i, Inl DecodeError) # post) w)
        = attachments (readers_settle fs (pre @ post) w)"
proof
  show "reader_settles f (Inl DecodeError) w = w"
    by (simp add: reader_settles_def)
next
  have "completed_records fs ((i, Inl DecodeError) # post) = completed_records fs post"
    by (simp split: option.splits)
  then show "attachments (readers_settle fs (pre @ (i, Inl DecodeError) # post) w)
      = attachments (readers_settle fs (pre @ post) w)"
    by (simp add: attachments_readers_settle completed_records_append)
qed

theorem unreadable_file_adds_nothing_witness:
  "attachments
     (readers_settle [png, mp3]
        [(1, Inr (js ''data:audio/mpeg;base64,QUJD'')), (0, Inl DecodeError)]
        (idle_world () :: (unit, unit) world))
   = [\<lparr>att_data = Some (js ''QUJD''), mimeType = js ''audio/mpeg'', att_type = AudioAtt\<rparr>]"
  using unreadable_file_adds_nothing
    [of png "idle_world () :: (unit, unit) world" "[png, mp3]"
        "[(1, Inr (js ''data:audio/mpeg;base64,QUJD''))]" 0 "[]"]
  by (simp add: idle_world_def encode_attachment_def png_def mp3_def js_def at_index_def
      reader_settles_def reader_onload_def Let_def)

text \<open>
  C9. Each selected file has a reader of its own, and when the readers load in the
  order \<open>order\<close> (indices into the selection), the pending attachments grow at their
  end by the records of the files in that order, which is the completion order and
  not the selection order.
\<close>

theorem attachments_in_completion_order:
  assumes "\<forall>i \<in> set order. i < length fs"
  shows "attachments (readers_settle (handleFileSelect (Some fs)) (map (\<lambda>i. (i, Inr (res i))) order) w)
    = attachments w @ map (\<lambda>i. encode_attachment (fs ! i) (res i)) order"
  using assms
  by (simp add: attachments_readers_settle completed_records_loaded handleFileSelect_def)

theorem attachments_in_completion_order_witness:
  "(1::nat) < length [png, mp3] \<and> (0::nat) < length [png, mp3]
    \<and> attachments
         (readers_settle (handleFileSelect (Some [png, mp3]))
            [(1, Inr (js ''data:audio/mpeg;base64,QUJD'')),
             (0, Inr (js ''data:image/png;base64,AAAA''))]
            (idle_world () :: (unit, unit) world))
       = [\<lparr>att_data = Some (js ''QUJD''), mimeType = js ''audio/mpeg'', att_type = AudioAtt\<rparr>,
          \<lparr>att_data = Some (js ''AAAA''), mimeType = js ''image/png'', att_type = ImageAtt\<rparr>]"
  using attachments_in_completion_order
    [of "[1, 0]" "[png, mp3]"
        "\<lambda>i. if i = 0 then js ''data:image/png;base64,AAAA'' else js ''data:audio/mpeg;base64,QUJD''"
        "idle_world () :: (unit, unit) world"]
  by (simp add: idle_world_def encode_attachment_def png_def mp3_def js_def at_index_def)

section \<open>Sending: the guard and the clearing of the inputs\<close>

lemma trim_empty_iff: "trim s = [] \<longleftrightarrow> list_all is_ws s"
proof
  assume "trim s = []"
  then have all: "\<forall>x \<in> set (dropWhile is_ws s). is_ws x"
    by (simp add: trim_def dropWhile_eq_Nil_conv)
  have "dropWhile is_ws s = []"
  proof (rule ccontr)
    assume ne: "dropWhile is_ws s \<noteq> []"
    then have "\<not> is_ws (hd (dropWhile is_ws s))" by (rule hd_dropWhile)
    moreover have "hd (dropWhile is_ws s) \<in> set (dropWhile is_ws s)" using ne by simp
    ultimately show False using all by blast
  qed
  then show "list_all is_ws s"
    by (simp add: dropWhile_eq_Nil_conv list_all_iff)
next
  assume "list_all is_ws s"
  then have d: "dropWhile is_ws s = []"
    by (induction s) simp_all
  show "trim s = []" unfolding trim_def d by simp
qed

text \<open>
  C5. When the input text is empty or consists of whitespace only and there are no
  pending attachments, \<open>handleSend\<close> returns at its guard: nothing is pending, and the
  whole state (the hook's timeline included) and the trace are unchanged, so no message
  was appended and \<open>sendUserMessage\<close> was not called. This holds for every hook.
\<close>

theorem handleSend_noop:
  assumes "list_all is_ws (inputValue w)" and "attachments w = []"
  shows "handleSend_begin send_begin w = (None, w)"
  using assms by (simp add: handleSend_begin_def trim_empty_iff)

theorem handleSend_noop_witness:
  "list_all is_ws (inputValue ((idle_world () :: (unit, unit) world)\<lparr>inputValue := js ''  ''\<rparr>))
    \<and> attachments ((idle_world () :: (unit, unit) world)\<lparr>inputValue := js ''  ''\<rparr>) = []
    \<and> handleSend_begin inert_begin ((idle_world () :: (unit, unit) world)\<lparr>inputValue := js ''  ''\<rparr>)
        = (None, (idle_world () :: (unit, unit) world)\<lparr>inputValue := js ''  ''\<rparr>)"
proof -
  let ?w = "(idle_world () :: (unit, unit) world)\<lparr>inputValue := js ''  ''\<rparr>"
  have ws: "list_all is_ws (inputValue ?w)" by (simp add: js_def is_ws_def)
  have no: "attachments ?w = []" by (simp add: idle_world_def)
  show ?thesis using ws no handleSend_noop [OF ws no, of inert_begin] by simp
qed

text \<open>
  C10. When \<open>handleSend\<close> passes its guard, the input text and the pending attachments
  are empty once it awaits, and the two clearing calls come before the call of
  \<open>sendUserMessage\<close> and everything the hook does in it. Resuming, whether the hook's
  promise fulfils or rejects, leaves both as they are in any state, so after a send
  with nothing else in between both are still empty. This holds for every hook.
\<close>

theorem handleSend_clears:
  assumes "\<not> (list_all is_ws (inputValue w) \<and> attachments w = [])"
  shows "case handleSend_begin send_begin w of
      (None, w1) \<Rightarrow> False
    | (Some t, w1) \<Rightarrow>
        inputValue w1 = [] \<and> attachments w1 = []
        \<and> (\<exists>evs. trace w1 = trace w @ SetInputValue [] # SetAttachments []
              # CallSendUserMessage (inputValue w) (attachments w) # map HookEv evs)
        \<and> inputValue (handleSend_resume send_settle t r w1) = []
        \<and> attachments (handleSend_resume send_settle t r w1) = []
        \<and> inputValue (handleSend_resume send_settle t r w') = inputValue w'
        \<and> attachments (handleSend_resume send_settle t r w') = attachments w'"
  using assms
  by (auto simp: handleSend_begin_def handleSend_resume_def trim_empty_iff Let_def
      split: prod.splits)

theorem handleSend_clears_witness:
  "\<not> (list_all is_ws (inputValue ((idle_world () :: (unit, unit) world)\<lparr>inputValue := js ''hi''\<rparr>))
       \<and> attachments ((idle_world () :: (unit, unit) world)\<lparr>inputValue := js ''hi''\<rparr>) = [])
    \<and> (case handleSend_begin inert_begin ((idle_world () :: (unit, unit) world)\<lparr>inputValue := js ''hi''\<rparr>) of
          (None, w1) \<Rightarrow> False
        | (Some t, w1) \<Rightarrow>
            inputValue w1 = [] \<and> attachments w1 = []
            \<and> trace w1 = [SetInputValue [], SetAttachments [], CallSendUserMessage (js ''hi'') []]
            \<and> inputValue (handleSend_resume inert_settle t False w1) = []
            \<and> attachments (handleSend_resume inert_settle t False w1) = []
            \<and> inputValue (handleSend_resume inert_settle t True w1) = []
            \<and> attachments (handleSend_resume inert_settle t True w1) = [])"
proof -
  let ?w = "(idle_world () :: (unit, unit) world)\<lparr>inputValue := js ''hi''\<rparr>"
  have g: "\<not> (list_all is_ws (inputValue ?w) \<and> attachments ?w = [])"
    by (simp add: js_def is_ws_def)
  show ?thesis
    using g
      handleSend_clears [OF g, where send_begin = inert_begin and send_settle = inert_settle
        and r = False and w' = ?w]
      handleSend_clears [OF g, where send_begin = inert_begin and send_settle = inert_settle
        and r = True and w' = ?w]
    by (simp add: handleSend_begin_def handleSend_resume_def inert_begin_def inert_settle_def
        idle_world_def trim_def is_ws_def js_def Let_def)
qed

section \<open>The chat hook: one send at a time\<close>

lemma sendUserMessage_begin_eq:
  "sendUserMessage_begin text atts st =
     (\<lparr>sent_session = sessionId st, placeholder = nextId st + 1\<rparr>,
      st\<lparr>messages := messages st @ [(user_message text atts)\<lparr>msg_id := nextId st\<rparr>,
                                     loading_message\<lparr>msg_id := nextId st + 1\<rparr>],
         nextId := nextId st + 2\<rparr>,
      [AppendedUser (nextId st), AppendedPlaceholder (nextId st + 1),
       BackendCall text atts (sessionId st)])"
  by (simp add: sendUserMessage_begin_def appendMessage_def)

lemma handleSend_begin_lucy:
  assumes "\<not> (trim (inputValue w) = [] \<and> attachments w = [])"
  shows "handleSend_begin sendUserMessage_begin w =
     (Some \<lparr>sent_session = sessionId (chat w), placeholder = nextId (chat w) + 1\<rparr>,
      w\<lparr>inputValue := [], attachments := [],
        chat := (chat w)\<lparr>messages := messages (chat w) @
                    [(user_message (inputValue w) (attachments w))\<lparr>msg_id := nextId (chat w)\<rparr>,
                     loading_message\<lparr>msg_id := nextId (chat w) + 1\<rparr>],
                  nextId := nextId (chat w) + 2\<rparr>,
        trace := trace w @
          [SetInputValue [], SetAttachments [],
           CallSendUserMessage (inputValue w) (attachments w),
           HookEv (AppendedUser (nextId (chat w))),
           HookEv (AppendedPlaceholder (nextId (chat w) + 1)),
           HookEv (BackendCall (inputValue w) (attachments w) (sessionId (chat w)))]\<rparr>)"
  using assms
  by (auto simp: handleSend_begin_def sendUserMessage_begin_eq Let_def)

lemma list_ex_placeholder_appended:
  "list_ex (is_placeholder i) (ms @ [u, loading_message\<lparr>msg_id := i\<rparr>])"
  by (simp add: is_placeholder_def loading_message_def)

lemma resolve_fresh_placeholder:
  assumes "list_all (\<lambda>m. \<not> isLoading m) ms"
  shows "map (\<lambda>m. if is_placeholder i m then apply_patch p m else m)
           (ms @ [(user_message text atts)\<lparr>msg_id := j\<rparr>, loading_message\<lparr>msg_id := i\<rparr>])
         = ms @ [(user_message text atts)\<lparr>msg_id := j\<rparr>, apply_patch p (loading_message\<lparr>msg_id := i\<rparr>)]"
proof -
  have "map (\<lambda>m. if is_placeholder i m then apply_patch p m else m) ms = ms"
    using assms by (induction ms) (simp_all add: is_placeholder_def)
  then show ?thesis
    by (simp add: is_placeholder_def user_message_def loading_message_def)
qed

lemma sessionId_settle:
  "sessionId (fst (snd (sendUserMessage_settle t r st))) = sessionId st"
  by (simp add: sendUserMessage_settle_def updatePlaceholder_def split: sum.splits)




lemma send_cycle_passes:
  assumes "passes_guard s" and "list_all (\<lambda>m. \<not> isLoading m) (messages (chat w))"
  shows "map shown (messages (chat (send_cycle w s))) = map shown (messages (chat w)) @ settled_pair s"
proof -
  obtain tx atts r where s: "s = (tx, atts, r)" by (cases s)
  let ?w = "w\<lparr>inputValue := tx, attachments := atts\<rparr>"
  have g: "\<not> (trim (inputValue ?w) = [] \<and> attachments ?w = [])"
    using assms(1) by (simp add: s passes_guard_def)
  show ?thesis
    using assms(2)
    by (simp add: s send_cycle_def handleSend_begin_lucy [OF g] handleSend_resume_def
        sendUserMessage_settle_def updatePlaceholder_def list_ex_placeholder_appended
        resolve_fresh_placeholder settled_pair_def shown_def apply_patch_def resolution_def
        user_message_def loading_message_def Let_def is_placeholder_def list_all_iff
        split: settled.splits)
qed

lemma send_cycle_rejected:
  assumes "\<not> passes_guard s"
  shows "chat (send_cycle w s) = chat w"
proof -
  obtain tx atts r where s: "s = (tx, atts, r)" by (cases s)
  show ?thesis using assms by (simp add: s send_cycle_def handleSend_begin_def passes_guard_def)
qed

lemma not_loading_shown:
  "list_all (\<lambda>m. \<not> isLoading m) ms \<longleftrightarrow> list_all (\<lambda>v. \<not> fst (snd (snd v))) (map shown ms)"
  by (induction ms) (simp_all add: shown_def)

lemma settled_pair_not_loading: "list_all (\<lambda>v. \<not> fst (snd (snd v))) (settled_pair s)"
  by (cases s) (simp add: settled_pair_def split: settled.splits)

lemma send_cycle_settled:
  assumes "list_all (\<lambda>m. \<not> isLoading m) (messages (chat w))"
  shows "list_all (\<lambda>m. \<not> isLoading m) (messages (chat (send_cycle w s)))"
proof (cases "passes_guard s")
  case True
  have "list_all (\<lambda>v. \<not> fst (snd (snd v))) (map shown (messages (chat w)) @ settled_pair s)"
    using assms settled_pair_not_loading [of s] by (simp add: not_loading_shown)
  then show ?thesis
    using send_cycle_passes [OF True assms] by (simp add: not_loading_shown)
next
  case False
  then show ?thesis using assms by (simp add: send_cycle_rejected)
qed

lemma run_sends_timeline:
  assumes "list_all (\<lambda>m. \<not> isLoading m) (messages (chat w))"
  shows "map shown (messages (chat (run_sends w ss)))
      = map shown (messages (chat w)) @ concat (map settled_pair (filter passes_guard ss))
    \<and> list_all (\<lambda>m. \<not> isLoading m) (messages (chat (run_sends w ss)))"
  using assms
proof (induction ss arbitrary: w)
  case Nil
  then show ?case by (simp add: run_sends_def)
next
  case (Cons s ss)
  have settled: "list_all (\<lambda>m. \<not> isLoading m) (messages (chat (send_cycle w s)))"
    using Cons.prems by (rule send_cycle_settled)
  have step: "map shown (messages (chat (send_cycle w s)))
      = map shown (messages (chat w)) @ (if passes_guard s then settled_pair s else [])"
    using Cons.prems by (simp add: send_cycle_passes send_cycle_rejected)
  have unfold: "run_sends w (s # ss) = run_sends (send_cycle w s) ss"
    by (simp add: run_sends_def)
  show ?case
    using Cons.IH [OF settled] step by (simp add: unfold)
qed

text \<open>
  C2. Sends issued one at a time, each settled before the next starts, extend a
  timeline without loading messages by one pair per send that passes the guard, in
  send order: the user's message, then the model's message with the reply or the
  failure text. No message with \<open>isLoading\<close> remains afterwards.
\<close>

theorem one_at_a_time_timeline:
  assumes "list_all (\<lambda>m. \<not> isLoading m) (messages (chat w))"
  shows "map shown (messages (chat (run_sends w ss)))
      = map shown (messages (chat w)) @ concat (map settled_pair (filter passes_guard ss))
    \<and> list_all (\<lambda>m. \<not> isLoading m) (messages (chat (run_sends w ss)))"
  using assms by (rule run_sends_timeline)

theorem one_at_a_time_timeline_witness:
  "list_all (\<lambda>m. \<not> isLoading m) (messages (chat initial))
    \<and> map shown (messages (chat (run_sends initial
          [(js ''draw a cat'', [],
              Fulfilled \<lparr>reply_text = js ''Here is your cat!'', reply_toolCalls = None,
                         reply_attachments = None\<rparr>),
           (js '' '', [], Rejected),
           (js ''again'', [], Rejected)])))
       = [(User, js ''draw a cat'', False, False),
          (Model, js ''Here is your cat!'', False, False),
          (User, js ''again'', False, False),
          (Model, SEND_FAILURE_TEXT, False, True)]"
proof -
  have s: "list_all (\<lambda>m. \<not> isLoading m) (messages (chat initial))"
    by (simp add: initial_def idle_world_def)
  have g1: "passes_guard (js ''draw a cat'', [], r)" for r
    by (simp add: passes_guard_def trim_def js_def is_ws_def)
  have g2: "\<not> passes_guard (js '' '', [], r)" for r
    by (simp add: passes_guard_def trim_def js_def is_ws_def)
  have g3: "passes_guard (js ''again'', [], r)" for r
    by (simp add: passes_guard_def trim_def js_def is_ws_def)
  show ?thesis
    using s one_at_a_time_timeline [OF s, THEN conjunct1]
    by (simp add: g1 g2 g3 settled_pair_def resolution_def initial_def idle_world_def)
qed

section \<open>The chat hook: order within one send\<close>

text \<open>
  C7. In one send that passes the guard, the trace shows the user message appended
  before the placeholder, the placeholder resolved (with the reply or as an error)
  before the refresh timer is set, and the timer firing after that. The timeline after
  the synchronous part ends with the user message followed by the loading
  placeholder; when \<open>handleSend\<close> resumes that placeholder is no longer loading; the
  refresh leaves the timeline alone.
\<close>

theorem send_order:
  assumes "\<not> (list_all is_ws (inputValue w) \<and> attachments w = [])"
  shows "case handleSend_begin sendUserMessage_begin w of
      (None, w1) \<Rightarrow> False
    | (Some t, w1) \<Rightarrow>
        (let w2 = handleSend_resume sendUserMessage_settle t r w1;
             w3 = timer_fires a w2;
             n = length (messages (chat w))
         in prefix (trace w @
              [SetInputValue [], SetAttachments [],
               CallSendUserMessage (inputValue w) (attachments w),
               HookEv (AppendedUser (nextId (chat w))),
               HookEv (AppendedPlaceholder (placeholder t)),
               HookEv (BackendCall (inputValue w) (attachments w) (sessionId (chat w))),
               HookEv (ResolvedPlaceholder (placeholder t) (patch_isError (resolution r))),
               SetTimeoutLoadAssets, TimerFired]) (trace w3)
            \<and> map shown (messages (chat w1)) = map shown (messages (chat w)) @
                 [(User, inputValue w, False, False), (Model, [], True, False)]
            \<and> msg_id (messages (chat w1) ! (n + 1)) = placeholder t
            \<and> shown (messages (chat w2) ! (n + 1))
                 = (Model, patch_text (resolution r), False, patch_isError (resolution r))
            \<and> messages (chat w3) = messages (chat w2))"
proof -
  have g: "\<not> (trim (inputValue w) = [] \<and> attachments w = [])"
    using assms by (simp add: trim_empty_iff)
  show ?thesis
    by (simp add: handleSend_begin_lucy [OF g] Let_def handleSend_resume_def
        sendUserMessage_settle_def updatePlaceholder_def list_ex_placeholder_appended
        timer_fires_def loadAssets_def shown_def user_message_def loading_message_def
        is_placeholder_def apply_patch_def nth_append
        split: settled.splits option.splits)
qed

theorem send_order_witness:
  "\<not> (list_all is_ws (inputValue (initial\<lparr>inputValue := js ''hi''\<rparr>))
       \<and> attachments (initial\<lparr>inputValue := js ''hi''\<rparr>) = [])
    \<and> (case handleSend_begin sendUserMessage_begin (initial\<lparr>inputValue := js ''hi''\<rparr>) of
          (None, w1) \<Rightarrow> False
        | (Some t, w1) \<Rightarrow>
            trace (timer_fires Rejected (handleSend_resume sendUserMessage_settle t Rejected w1))
              = [SetInputValue [], SetAttachments [], CallSendUserMessage (js ''hi'') [],
                 HookEv (AppendedUser 0), HookEv (AppendedPlaceholder 1),
                 HookEv (BackendCall (js ''hi'') [] 0),
                 HookEv (ResolvedPlaceholder 1 True),
                 SetTimeoutLoadAssets, TimerFired])"
proof -
  let ?w = "initial\<lparr>inputValue := js ''hi''\<rparr>"
  have g: "\<not> (list_all is_ws (inputValue ?w) \<and> attachments ?w = [])"
    by (simp add: js_def is_ws_def)
  show ?thesis
    using g send_order [OF g, of Rejected Rejected]
    by (simp add: handleSend_begin_def sendUserMessage_begin_def appendMessage_def
        Let_def initial_def idle_world_def trim_def is_ws_def js_def
        handleSend_resume_def sendUserMessage_settle_def updatePlaceholder_def
        timer_fires_def loadAssets_def resolution_def is_placeholder_def
        user_message_def loading_message_def)
qed

section \<open>The chat hook: stale responses\<close>








end
